theory Spec2Isabelle
  imports Main "HOL-Library.Sublist" "HOL-Library.Char_ord"
begin

section \<open>Go strings and the standard-library functions the code calls\<close>

text \<open>
  A Go string is a sequence of bytes; \<^typ>\<open>string\<close> is a list of 8-bit characters, so
  \<^term>\<open>length s\<close> is Go's \<open>len(s)\<close> and \<^term>\<open>take n s\<close> is \<open>s[:n]\<close> for \<open>n \<le> len(s)\<close>.
  The functions of this section are those of Go's \<open>strings\<close> and \<open>path/filepath\<close>
  packages that the repository calls, written on bytes.
\<close>

definition isDigit :: "char \<Rightarrow> bool" where
  "isDigit c = (CHR ''0'' \<le> c \<and> c \<le> CHR ''9'')"

definition isASCII :: "char \<Rightarrow> bool" where
  "isASCII c = (of_char c < (128::nat))"

definition asciiLower :: "char \<Rightarrow> char" where
  "asciiLower c =
     (if CHR ''A'' \<le> c \<and> c \<le> CHR ''Z'' then char_of (of_char c + (32::nat)) else c)"

text \<open>
  \<open>strings.ToLower\<close>: a string of ASCII bytes only is lowered byte by byte. Any other
  string goes through \<open>strings.Map(unicode.ToLower, s)\<close>, which decodes UTF-8 and consults
  the Unicode case tables of the Go runtime; that path is the parameter \<open>unicodeLower\<close>.
\<close>

definition ToLower :: "(string \<Rightarrow> string) \<Rightarrow> string \<Rightarrow> string" where
  "ToLower unicodeLower s = (if list_all isASCII s then map asciiLower s else unicodeLower s)"

text \<open>\<open>strings.Contains(s, sub)\<close>: \<open>sub\<close> occurs at some position of \<open>s\<close>.\<close>

fun Contains :: "string \<Rightarrow> string \<Rightarrow> bool" where
  "Contains [] sub = (sub = [])"
| "Contains (c # cs) sub = (prefix sub (c # cs) \<or> Contains cs sub)"

text \<open>
  \<open>strings.ReplaceAll(s, old, new)\<close> for a non-empty \<open>old\<close>: the non-overlapping
  occurrences of \<open>old\<close> are replaced from left to right. (The repository calls it with
  \<open>" "\<close> and \<open>"--"\<close> only; the empty pattern, which Go treats rune-wise, is not modelled and
  leaves the string as it is.)
\<close>

function ReplaceAll :: "string \<Rightarrow> string \<Rightarrow> string \<Rightarrow> string" where
  "ReplaceAll [] old new = []"
| "ReplaceAll (c # cs) old new =
     (if old \<noteq> [] \<and> prefix old (c # cs)
      then new @ ReplaceAll (drop (length old) (c # cs)) old new
      else c # ReplaceAll cs old new)"
  by pat_completeness auto
termination
  by (relation "measure (\<lambda>(s, old, new). length s)") auto

text \<open>
  \<open>strings.TrimLeft\<close>, \<open>TrimRight\<close> and \<open>Trim\<close> with a cutset of ASCII characters, and
  \<open>strings.TrimSuffix\<close>.
\<close>

definition TrimLeft :: "string \<Rightarrow> string \<Rightarrow> string" where
  "TrimLeft s cutset = dropWhile (\<lambda>c. c \<in> set cutset) s"

definition TrimRight :: "string \<Rightarrow> string \<Rightarrow> string" where
  "TrimRight s cutset = rev (dropWhile (\<lambda>c. c \<in> set cutset) (rev s))"

definition Trim :: "string \<Rightarrow> string \<Rightarrow> string" where
  "Trim s cutset = TrimLeft (TrimRight s cutset) cutset"

definition TrimSuffix :: "string \<Rightarrow> string \<Rightarrow> string" where
  "TrimSuffix s suf = (if suffix suf s then take (length s - length suf) s else s)"

text \<open>
  \<open>filepath.Base\<close> with the separator \<open>/\<close>: the empty path gives \<open>"."\<close>, trailing
  separators are stripped, the last element is returned, and a path of separators only
  gives \<open>"/"\<close>.
\<close>

definition Base :: "string \<Rightarrow> string" where
  "Base path =
     (if path = [] then ''.''
      else let p = TrimRight path ''/'';
               e = rev (takeWhile (\<lambda>c. c \<noteq> CHR ''/'') (rev p))
           in if e = [] then ''/'' else e)"

section \<open>Progress-file names (pkg/progress/progress.go)\<close>

text \<open>
  The loop \<open>for strings.Contains(result, "--") { result = strings.ReplaceAll(result, "--", "-") }\<close>
  of \<open>sanitizePlanName\<close>.
\<close>

function progress_collapse :: "string \<Rightarrow> string" where
  "progress_collapse result =
     (if Contains result ''--'' then progress_collapse (ReplaceAll result ''--'' ''-'')
      else result)"
  by pat_completeness auto

lemma ReplaceAll_length_le:
  "length new \<le> length old \<Longrightarrow> length (ReplaceAll s old new) \<le> length s"
proof (induction s old new rule: ReplaceAll.induct)
  case (1 old new)
  then show ?case by simp
next
  case (2 c cs old new)
  show ?case
  proof (cases "old \<noteq> [] \<and> prefix old (c # cs)")
    case True
    then have "length old \<le> length (c # cs)"
      by (auto dest: prefix_length_le)
    with True "2.IH"(1) "2.prems" show ?thesis
      by simp
  next
    case False
    with "2.IH"(2) "2.prems" show ?thesis
      by auto
  qed
qed

lemma ReplaceAll_shrinks:
  "Contains s old \<Longrightarrow> length new < length old
     \<Longrightarrow> length (ReplaceAll s old new) < length s"
proof (induction s old new rule: ReplaceAll.induct)
  case (1 old new)
  then show ?case by simp
next
  case (2 c cs old new)
  show ?case
  proof (cases "old \<noteq> [] \<and> prefix old (c # cs)")
    case True
    have "length (ReplaceAll (drop (length old) (c # cs)) old new)
            \<le> length (drop (length old) (c # cs))"
      using "2.prems"(2) by (intro ReplaceAll_length_le) simp
    moreover have "length old \<le> length (c # cs)"
      using True by (auto dest: prefix_length_le)
    ultimately show ?thesis
      using True "2.prems"(2) by simp
  next
    case False
    with "2.prems" have "Contains cs old"
      by auto
    with "2.IH"(2) False "2.prems"(2) show ?thesis
      by auto
  qed
qed

termination progress_collapse
  by (relation "measure length") (auto intro: ReplaceAll_shrinks)

text \<open>
  \<open>sanitizePlanName\<close>. The loop over the runes of \<open>result\<close> keeps a rune only if it is one
  of the ASCII characters \<open>a-z\<close>, \<open>0-9\<close>, \<open>-\<close>; every byte below \<open>0x80\<close> of a Go string is a
  rune of its own and no other rune is kept, so the loop is a filter on bytes.
\<close>

definition progress_sanitizePlanName :: "(string \<Rightarrow> string) \<Rightarrow> string \<Rightarrow> string" where
  "progress_sanitizePlanName unicodeLower desc =
     (let result = ToLower unicodeLower desc;
          result = ReplaceAll result '' '' ''-'';
          result = filter (\<lambda>r. (CHR ''a'' \<le> r \<and> r \<le> CHR ''z'') \<or>
                               (CHR ''0'' \<le> r \<and> r \<le> CHR ''9'') \<or> r = CHR ''-'') result;
          result = progress_collapse result;
          result = Trim result ''-'';
          result = (if length result > 50 then TrimRight (take 50 result) ''-'' else result)
      in if result = [] then ''unnamed'' else result)"

definition progress_progressFilename ::
  "(string \<Rightarrow> string) \<Rightarrow> string \<Rightarrow> string \<Rightarrow> string \<Rightarrow> string" where
  "progress_progressFilename unicodeLower planFile planDescription mode =
     (if mode = ''plan'' \<and> planDescription \<noteq> []
      then ''progress-plan-'' @ progress_sanitizePlanName unicodeLower planDescription @ ''.txt''
      else if planFile \<noteq> []
      then (let stem = TrimSuffix (Base planFile) ''.md''
            in if mode = ''codex-only'' then ''progress-'' @ stem @ ''-codex.txt''
               else if mode = ''review'' then ''progress-'' @ stem @ ''-review.txt''
               else ''progress-'' @ stem @ ''.txt'')
      else if mode = ''codex-only'' then ''progress-codex.txt''
      else if mode = ''review'' then ''progress-review.txt''
      else if mode = ''plan'' then ''progress-plan.txt''
      else ''progress.txt'')"

section \<open>Progress-file names (pkg/tui/logger.go)\<close>

function tui_collapse :: "string \<Rightarrow> string" where
  "tui_collapse result =
     (if Contains result ''--'' then tui_collapse (ReplaceAll result ''--'' ''-'')
      else result)"
  by pat_completeness auto
termination
  by (relation "measure length") (auto intro: ReplaceAll_shrinks)

definition tui_sanitizePlanName :: "(string \<Rightarrow> string) \<Rightarrow> string \<Rightarrow> string" where
  "tui_sanitizePlanName unicodeLower desc =
     (let result = ToLower unicodeLower desc;
          result = ReplaceAll result '' '' ''-'';
          result = filter (\<lambda>r. (CHR ''a'' \<le> r \<and> r \<le> CHR ''z'') \<or>
                               (CHR ''0'' \<le> r \<and> r \<le> CHR ''9'') \<or> r = CHR ''-'') result;
          result = tui_collapse result;
          result = Trim result ''-'';
          result = (if length result > 50 then TrimRight (take 50 result) ''-'' else result)
      in if result = [] then ''unnamed'' else result)"

definition tui_progressFilename ::
  "(string \<Rightarrow> string) \<Rightarrow> string \<Rightarrow> string \<Rightarrow> string \<Rightarrow> string" where
  "tui_progressFilename unicodeLower planFile planDescription mode =
     (if mode = ''plan'' \<and> planDescription \<noteq> []
      then ''progress-plan-'' @ tui_sanitizePlanName unicodeLower planDescription @ ''.txt''
      else if planFile \<noteq> []
      then (let stem = TrimSuffix (Base planFile) ''.md''
            in if mode = ''codex-only'' then ''progress-'' @ stem @ ''-codex.txt''
               else if mode = ''review'' then ''progress-'' @ stem @ ''-review.txt''
               else ''progress-'' @ stem @ ''.txt'')
      else if mode = ''codex-only'' then ''progress-codex.txt''
      else if mode = ''review'' then ''progress-review.txt''
      else if mode = ''plan'' then ''progress-plan.txt''
      else ''progress.txt'')"

section \<open>Branch names and the initial TUI state (cmd/ralphex/main.go)\<close>

text \<open>
  \<open>datePrefixRe = regexp.MustCompile(`^[\d-]+`)\<close>: anchored at the start of the text, the
  greedy class repetition matches the longest prefix of ASCII digits and dashes, and
  there is a match only if that prefix is not empty. \<open>ReplaceAllString(name, "")\<close> removes
  the match; an anchored expression has at most one.
\<close>

definition datePrefixRe_match :: "string \<Rightarrow> string option" where
  "datePrefixRe_match s =
     (let m = takeWhile (\<lambda>c. isDigit c \<or> c = CHR ''-'') s
      in if m = [] then None else Some m)"

definition datePrefixRe_remove :: "string \<Rightarrow> string" where
  "datePrefixRe_remove s =
     (case datePrefixRe_match s of None \<Rightarrow> s | Some m \<Rightarrow> drop (length m) s)"

definition extractBranchName :: "string \<Rightarrow> string" where
  "extractBranchName planFile =
     (let name = TrimSuffix (Base planFile) ''.md'';
          branchName = TrimLeft (datePrefixRe_remove name) ''-''
      in if branchName = [] then name else branchName)"

text \<open>
  The command-line options (\<open>opts\<close>; the test-only field \<open>teaOptions\<close> is left out) and
  the execution modes. \<open>processor.Mode\<close> is declared outside the files at hand; the four
  constants are those \<open>main.go\<close> uses.
\<close>

record opts =
  MaxIterations :: int
  Review :: bool
  CodexOnly :: bool
  PlanDescription :: string
  Debug :: bool
  NoColor :: bool
  Version :: bool
  Serve :: bool
  Port :: int
  Watch :: "string list"
  Reset :: bool
  PlanFile :: string


text \<open>
  (The variable \<open>o\<close> of the source is written \<open>opt\<close> below.)
\<close>

text \<open>The states of the TUI (\<open>pkg/tui/tui.go\<close>), in the order of the \<open>iota\<close> block.\<close>

datatype State = StateSelectPlan | StateCreatePlan | StateExecuting | StateQuestion | StateDone


definition validateFlags :: "opts \<Rightarrow> string option" where
  "validateFlags opt =
     (if PlanDescription opt \<noteq> [] \<and> PlanFile opt \<noteq> []
      then Some ''--plan flag conflicts with plan file argument; use one or the other''
      else None)"


section \<open>The safe sender (pkg/tui/logger.go)\<close>

text \<open>
  The wrapped \<open>Sender\<close> is an interface; it is modelled by the list of the messages its
  \<open>Send\<close> has been called with, oldest first. \<open>Send\<close> and \<open>Stop\<close> run under the read-write
  mutex \<open>mu\<close>, so each is one atomic step on the pair of that list and the flag.
\<close>

record 'msg SafeSender =
  ss_sender :: "'msg list"
  stopped :: bool

definition NewSafeSender :: "'msg list \<Rightarrow> 'msg SafeSender" where
  "NewSafeSender sender = \<lparr>ss_sender = sender, stopped = False\<rparr>"

definition SafeSender_Send :: "'msg SafeSender \<Rightarrow> 'msg \<Rightarrow> 'msg SafeSender" where
  "SafeSender_Send s msg = (if stopped s then s else s\<lparr>ss_sender := ss_sender s @ [msg]\<rparr>)"

definition SafeSender_Stop :: "'msg SafeSender \<Rightarrow> 'msg SafeSender" where
  "SafeSender_Stop s = s\<lparr>stopped := True\<rparr>"

text \<open>A caller's sequence of calls on one safe sender.\<close>

datatype 'msg call = CallSend 'msg | CallStop

fun SafeSender_call :: "'msg SafeSender \<Rightarrow> 'msg call \<Rightarrow> 'msg SafeSender" where
  "SafeSender_call s (CallSend msg) = SafeSender_Send s msg"
| "SafeSender_call s CallStop = SafeSender_Stop s"

section \<open>Channels\<close>

text \<open>
  A Go channel of strings: the buffered values (oldest first), the capacity and the
  closed flag. Channels are shared between the collector and the UI, so they live in a
  store and are referred to by their index; a reference that is not in the store behaves
  as the \<open>nil\<close> channel. An operation that cannot proceed at once is \<open>Blocks\<close>, one that
  panics is \<open>Panics\<close>.
\<close>

record chan =
  buf :: "string list"
  cap :: nat
  closed :: bool

type_synonym chanref = nat
type_synonym store = "chan list"

datatype 'a outcome = Ok 'a | Blocks | Panics

definition make_chan :: "store \<Rightarrow> nat \<Rightarrow> chanref \<times> store" where
  "make_chan st n = (length st, st @ [\<lparr>buf = [], cap = n, closed = False\<rparr>])"

text \<open>\<open>ch <- v\<close>: panics on a closed channel, blocks while the buffer is full.\<close>

definition chan_send :: "store \<Rightarrow> chanref \<Rightarrow> string \<Rightarrow> store outcome" where
  "chan_send st r v =
     (if r < length st
      then (let ch = st ! r
            in if closed ch then Panics
               else if length (buf ch) < cap ch then Ok (st[r := ch\<lparr>buf := buf ch @ [v]\<rparr>])
               else Blocks)
      else Blocks)"

text \<open>\<open>close(ch)\<close>: panics on a closed and on a \<open>nil\<close> channel.\<close>

definition chan_close :: "store \<Rightarrow> chanref \<Rightarrow> store outcome" where
  "chan_close st r =
     (if r < length st
      then (let ch = st ! r
            in if closed ch then Panics else Ok (st[r := ch\<lparr>closed := True\<rparr>]))
      else Panics)"

text \<open>
  \<open>v, ok := <-ch\<close> when it can proceed: a buffered value is taken with \<open>ok = true\<close>; a
  closed and drained channel yields the zero value with \<open>ok = false\<close>; otherwise the
  receive is not ready (\<open>None\<close>).
\<close>

definition chan_recv :: "store \<Rightarrow> chanref \<Rightarrow> ((string \<times> bool) \<times> store) option" where
  "chan_recv st r =
     (if r < length st
      then (let ch = st ! r
            in case buf ch of
                 v # vs \<Rightarrow> Some ((v, True), st[r := ch\<lparr>buf := vs\<rparr>])
               | [] \<Rightarrow> if closed ch then Some (([], False), st) else None)
      else None)"

section \<open>The TUI model (pkg/tui/tui.go)\<close>

text \<open>
  The messages of the TUI that the functions below send or handle, and the fields of
  \<open>Model\<close> they read or write (the field \<open>output\<close> is \<open>m_output\<close> here). Of the viewport (an external widget) the content set by
  \<open>SetContent\<close> is kept; its scroll position, which \<open>GotoBottom\<close> moves, is not.
\<close>

datatype Msg =
    OutputMsg string
  | QuestionMsg string "string list" chanref

datatype Cmd = Quit

record Model =
  viewport :: string
  m_output :: "string list"
  state :: State
  autoScroll :: bool
  question :: string
  questionOpts :: "string list"
  questionCursor :: int
  questionCh :: "chanref option"
  prevState :: State

definition NewModel :: "State \<Rightarrow> Model" where
  "NewModel initialState =
     \<lparr>viewport = [], m_output = [], state = initialState, autoScroll = True,
      question = [], questionOpts = [], questionCursor = 0, questionCh = None,
      prevState = StateSelectPlan\<rparr>"

text \<open>\<open>strings.Join(elems, sep)\<close>.\<close>

fun Join :: "string list \<Rightarrow> string \<Rightarrow> string" where
  "Join [] sep = []"
| "Join [x] sep = x"
| "Join (x # y # ys) sep = x @ sep @ Join (y # ys) sep"

definition maxOutputLines :: nat where
  "maxOutputLines = 10000"

definition appendOutput :: "Model \<Rightarrow> string \<Rightarrow> Model" where
  "appendOutput m line =
     (let m = m\<lparr>m_output := m_output m @ [line]\<rparr>;
          m = (if length (m_output m) > maxOutputLines
               then m\<lparr>m_output := drop (length (m_output m) - maxOutputLines) (m_output m)\<rparr>
               else m)
      in m\<lparr>viewport := Join (m_output m) [CHR 0x0A]\<rparr>)"

definition handleQuestion :: "Model \<Rightarrow> string \<Rightarrow> string list \<Rightarrow> chanref \<Rightarrow> Model" where
  "handleQuestion m q opts answerCh =
     m\<lparr>prevState := state m, state := StateQuestion, question := q, questionOpts := opts,
       questionCursor := 0, questionCh := Some answerCh\<rparr>"

text \<open>
  \<open>updateQuestion\<close>, on the key's \<open>String()\<close>. Indexing \<open>questionOpts\<close> out of range
  panics, as does closing a closed channel; the send blocks on a full buffer.
\<close>

definition updateQuestion ::
  "Model \<Rightarrow> string \<Rightarrow> store \<Rightarrow> (Model \<times> store \<times> Cmd option) outcome" where
  "updateQuestion m key st =
     (if key = ''up'' \<or> key = ''k''
      then Ok (if questionCursor m > 0 then m\<lparr>questionCursor := questionCursor m - 1\<rparr> else m,
               st, None)
      else if key = ''down'' \<or> key = ''j''
      then Ok (if questionCursor m < int (length (questionOpts m)) - 1
               then m\<lparr>questionCursor := questionCursor m + 1\<rparr> else m,
               st, None)
      else if key = ''enter''
      then (case questionCh m of
              Some ch \<Rightarrow>
                if length (questionOpts m) > 0
                then (if 0 \<le> questionCursor m \<and> questionCursor m < int (length (questionOpts m))
                      then (case chan_send st ch (questionOpts m ! nat (questionCursor m)) of
                              Ok st' \<Rightarrow>
                                Ok (m\<lparr>state := prevState m, question := [], questionOpts := [],
                                      questionCh := None\<rparr>, st', None)
                            | Blocks \<Rightarrow> Blocks
                            | Panics \<Rightarrow> Panics)
                      else Panics)
                else Ok (m, st, None)
            | None \<Rightarrow> Ok (m, st, None))
      else if key = ''ctrl+c''
      then (case questionCh m of
              Some ch \<Rightarrow>
                (case chan_close st ch of
                   Ok st' \<Rightarrow> Ok (m\<lparr>questionCh := None\<rparr>, st', Some Quit)
                 | Blocks \<Rightarrow> Blocks
                 | Panics \<Rightarrow> Panics)
            | None \<Rightarrow> Ok (m, st, Some Quit))
      else Ok (m, st, None))"

section \<open>The input collector (pkg/tui/input_collector.go)\<close>

record teaCollector =
  tc_sender :: "Msg list"
  answerCh :: chanref

definition NewCollector :: "Msg list \<Rightarrow> store \<Rightarrow> teaCollector \<times> store" where
  "NewCollector sender st =
     (let (r, st') = make_chan st 1 in (\<lparr>tc_sender = sender, answerCh = r\<rparr>, st'))"

text \<open>
  \<open>AskQuestion\<close> up to its blocking \<open>select\<close>: the check of the options, the
  non-blocking drain of a stale answer, and the send of the \<open>QuestionMsg\<close>. \<open>Inl\<close> is an
  immediate return (answer, error), \<open>Inr\<close> the state in which the call reaches the
  \<open>select\<close>.
\<close>

definition AskQuestion_begin ::
  "teaCollector \<Rightarrow> store \<Rightarrow> string \<Rightarrow> string list
     \<Rightarrow> (string \<times> string option) + (teaCollector \<times> store)" where
  "AskQuestion_begin c st q options =
     (if length options = 0 then Inl ([], Some ''no options provided'')
      else let st = (case chan_recv st (answerCh c) of Some (_, st') \<Rightarrow> st' | None \<Rightarrow> st);
               c = c\<lparr>tc_sender := tc_sender c @ [QuestionMsg q options (answerCh c)]\<rparr>
           in Inr (c, st))"

text \<open>
  The \<open>select\<close> on \<open>ctx.Done()\<close> and \<open>c.answerCh\<close>. \<open>ctx\<close> is \<open>Some e\<close> when the context is
  done with error text \<open>e\<close>. When both cases are ready Go chooses one at random; \<open>pick\<close>
  is that choice (true: the context). \<open>None\<close>: no case is ready and the call stays
  blocked.
\<close>

definition AskQuestion_select ::
  "string option \<Rightarrow> bool \<Rightarrow> teaCollector \<Rightarrow> store
     \<Rightarrow> ((string \<times> string option) \<times> store) option" where
  "AskQuestion_select ctx pick c st =
     (case (ctx, chan_recv st (answerCh c)) of
        (None, None) \<Rightarrow> None
      | (Some e, None) \<Rightarrow> Some (([], Some (''ask question: '' @ e)), st)
      | (None, Some ((answer, ok), st')) \<Rightarrow>
          if \<not> ok then Some (([], Some ''question canceled''), st')
          else Some ((answer, None), st')
      | (Some e, Some ((answer, ok), st')) \<Rightarrow>
          if pick then Some (([], Some (''ask question: '' @ e)), st)
          else if \<not> ok then Some (([], Some ''question canceled''), st')
          else Some ((answer, None), st'))"

section \<open>Wall-clock time and its formatting\<close>

text \<open>
  A reading of \<open>time.Now()\<close>, as its calendar fields. \<open>Format\<close> writes a field with the
  runtime's \<open>appendInt\<close>: the decimal digits, padded with zeros on the left up to the
  given width.
\<close>

record tm =
  tm_year :: nat
  tm_month :: nat
  tm_day :: nat
  tm_hour :: nat
  tm_minute :: nat
  tm_second :: nat

definition digit :: "nat \<Rightarrow> char" where
  "digit n = char_of (of_char (CHR ''0'') + n)"

function decimal :: "nat \<Rightarrow> string" where
  "decimal n = (if n < 10 then [digit n] else decimal (n div 10) @ [digit (n mod 10)])"
  by pat_completeness auto
termination
  by (relation "measure id") auto

definition appendInt :: "nat \<Rightarrow> nat \<Rightarrow> string" where
  "appendInt x width = (let d = decimal x in replicate (width - length d) (CHR ''0'') @ d)"

text \<open>\<open>t.Format("2006-01-02 15:04:05")\<close>, used by the header and the footer.\<close>

definition Format_datetime :: "tm \<Rightarrow> string" where
  "Format_datetime t =
     appendInt (tm_year t) 4 @ ''-'' @ appendInt (tm_month t) 2 @ ''-'' @ appendInt (tm_day t) 2 @
     '' '' @ appendInt (tm_hour t) 2 @ '':'' @ appendInt (tm_minute t) 2 @ '':'' @
     appendInt (tm_second t) 2"


section \<open>The progress file\<close>

text \<open>
  The file behind \<open>*os.File\<close>: its name, the bytes written so far, whether the advisory
  lock is held and whether the descriptor is closed. A write to a closed file fails, and
  \<open>writeFile\<close> drops the error of \<open>fmt.Fprintf\<close>.
\<close>

record osfile =
  fname :: string
  content :: string
  flocked :: bool
  fclosed :: bool

definition Fprintf :: "osfile \<Rightarrow> string \<Rightarrow> osfile" where
  "Fprintf f s = (if fclosed f then f else f\<lparr>content := content f @ s\<rparr>)"

text \<open>
  \<open>f.Close()\<close>: closing twice is an error; otherwise the descriptor is released and the
  operating system's verdict \<open>oserr\<close> is returned.
\<close>

definition file_Close :: "osfile \<Rightarrow> string option \<Rightarrow> osfile \<times> string option" where
  "file_Close f oserr =
     (if fclosed f then (f, Some (''close '' @ fname f @ '': file already closed''))
      else (f\<lparr>fclosed := True\<rparr>, oserr))"

text \<open>
  Modelled from the spec: \<open>UnlockFile\<close>, whose platform files are not among the sources;
  the spec has \<open>Close\<close> "release lock" (a no-op where advisory locks do not exist, in which
  case the lock is never held). Unlocking a closed descriptor fails and changes nothing.
\<close>

definition UnlockFile :: "osfile \<Rightarrow> osfile" where
  "UnlockFile f = (if fclosed f then f else f\<lparr>flocked := False\<rparr>)"

text \<open>
  The registry \<open>activeLocks\<close> of the package; \<open>canonicalPath\<close> (\<open>filepath.Abs\<close> and
  \<open>filepath.Clean\<close>, which depend on the working directory) is a parameter.
\<close>

definition RegisterActiveLock :: "(string \<Rightarrow> string) \<Rightarrow> string set \<Rightarrow> string \<Rightarrow> string set" where
  "RegisterActiveLock canonicalPath activeLocks path = insert (canonicalPath path) activeLocks"

definition UnregisterActiveLock :: "(string \<Rightarrow> string) \<Rightarrow> string set \<Rightarrow> string \<Rightarrow> string set" where
  "UnregisterActiveLock canonicalPath activeLocks path = activeLocks - {canonicalPath path}"



section \<open>The file logger (pkg/progress/progress.go)\<close>

text \<open>(The field \<open>file\<close> is \<open>l_file\<close> here.)\<close>

record Logger =
  l_file :: "osfile option"
  startTime :: tm
  phase :: string

definition progress_writeFile :: "Logger \<Rightarrow> string \<Rightarrow> Logger" where
  "progress_writeFile l s =
     (case l_file l of None \<Rightarrow> l | Some f \<Rightarrow> l\<lparr>l_file := Some (Fprintf f s)\<rparr>)"






text \<open>
  \<open>Close\<close>. \<open>now\<close> is the reading of the clock for the footer, \<open>elapsed\<close> the string
  \<open>l.Elapsed()\<close> returns (\<open>humanize.RelTime\<close>, an external library), \<open>oserr\<close> the verdict
  of the operating system on closing the descriptor. The result is the logger, the
  registry of active locks and the error returned.
\<close>

definition progress_Close ::
  "Logger \<Rightarrow> tm \<Rightarrow> string \<Rightarrow> (string \<Rightarrow> string) \<Rightarrow> string set \<Rightarrow> string option
     \<Rightarrow> Logger \<times> string set \<times> string option" where
  "progress_Close l now elapsed canonicalPath activeLocks oserr =
     (case l_file l of
        None \<Rightarrow> (l, activeLocks, None)
      | Some _ \<Rightarrow>
          let l = progress_writeFile l ([CHR 0x0A] @ replicate 60 (CHR ''-'') @ [CHR 0x0A]);
              l = progress_writeFile l
                    (''Completed: '' @ Format_datetime now @ '' ('' @ elapsed @ '')'' @ [CHR 0x0A])
          in case l_file l of
               None \<Rightarrow> (l, activeLocks, None)
             | Some f \<Rightarrow>
                 let f = UnlockFile f;
                     activeLocks = UnregisterActiveLock canonicalPath activeLocks (fname f);
                     (f, err) = file_Close f oserr;
                     l = l\<lparr>l_file := Some f\<rparr>
                 in case err of
                      Some e \<Rightarrow> (l, activeLocks, Some (''close progress file: '' @ e))
                    | None \<Rightarrow> (l, activeLocks, None))"

section \<open>The TUI logger (pkg/tui/logger.go)\<close>

text \<open>
  \<open>teaLogger\<close>; its \<open>sender\<close> is the list of the messages passed to \<open>Send\<close>, oldest
  first. (The fields are prefixed with \<open>tl_\<close>.)
\<close>

record teaLogger =
  tl_file :: "osfile option"
  tl_sender :: "Msg list"
  tl_startTime :: tm
  tl_phase :: string

definition tui_writeFile :: "teaLogger \<Rightarrow> string \<Rightarrow> teaLogger" where
  "tui_writeFile l s =
     (case tl_file l of None \<Rightarrow> l | Some f \<Rightarrow> l\<lparr>tl_file := Some (Fprintf f s)\<rparr>)"






definition tui_Close ::
  "teaLogger \<Rightarrow> tm \<Rightarrow> (string \<Rightarrow> string) \<Rightarrow> string set \<Rightarrow> string option
     \<Rightarrow> teaLogger \<times> string set \<times> string option" where
  "tui_Close l now canonicalPath activeLocks oserr =
     (case tl_file l of
        None \<Rightarrow> (l, activeLocks, None)
      | Some _ \<Rightarrow>
          let l = tui_writeFile l ([CHR 0x0A] @ replicate 60 (CHR ''-'') @ [CHR 0x0A]);
              l = tui_writeFile l (''Completed: '' @ Format_datetime now @ [CHR 0x0A])
          in case tl_file l of
               None \<Rightarrow> (l, activeLocks, None)
             | Some f \<Rightarrow>
                 let f = UnlockFile f;
                     activeLocks = UnregisterActiveLock canonicalPath activeLocks (fname f);
                     (f, err) = file_Close f oserr;
                     l = l\<lparr>tl_file := Some f\<rparr>
                 in case err of
                      Some e \<Rightarrow> (l, activeLocks, Some (''close progress file: '' @ e))
                    | None \<Rightarrow> (l, activeLocks, None))"

section \<open>Reference definitions for the properties\<close>

text \<open>Runs of dashes reduced to a single dash.\<close>

fun squeeze :: "string \<Rightarrow> string" where
  "squeeze (a # b # cs) =
     (if a = CHR ''-'' \<and> b = CHR ''-'' then squeeze (b # cs) else a # squeeze (b # cs))"
| "squeeze cs = cs"

text \<open>
  The slug as the specification words it: lowercased, characters that are neither
  alphanumeric nor a dash stripped, double dashes collapsed, trimmed to 50 characters,
  \<open>unnamed\<close> if empty.
\<close>

definition isAlnum :: "char \<Rightarrow> bool" where
  "isAlnum c = ((CHR ''a'' \<le> c \<and> c \<le> CHR ''z'') \<or> (CHR ''A'' \<le> c \<and> c \<le> CHR ''Z'') \<or>
                (CHR ''0'' \<le> c \<and> c \<le> CHR ''9''))"

definition spec_slug :: "(string \<Rightarrow> string) \<Rightarrow> string \<Rightarrow> string" where
  "spec_slug unicodeLower desc =
     (let s = ToLower unicodeLower desc;
          s = filter (\<lambda>c. isAlnum c \<or> c = CHR ''-'') s;
          s = squeeze s;
          s = take 50 s
      in if s = [] then ''unnamed'' else s)"

text \<open>
  The slug with the steps the specification's sentence leaves out: spaces become dashes
  before the stripping, leading and trailing dashes are trimmed, and trailing dashes are
  trimmed again after the cut to 50 bytes.
\<close>

definition amended_slug :: "(string \<Rightarrow> string) \<Rightarrow> string \<Rightarrow> string" where
  "amended_slug unicodeLower desc =
     (let s = map (\<lambda>c. if c = CHR '' '' then CHR ''-'' else c) (ToLower unicodeLower desc);
          s = filter (\<lambda>c. (CHR ''a'' \<le> c \<and> c \<le> CHR ''z'') \<or>
                          (CHR ''0'' \<le> c \<and> c \<le> CHR ''9'') \<or> c = CHR ''-'') s;
          s = squeeze s;
          s = Trim s ''-'';
          s = TrimRight (take 50 s) ''-''
      in if s = [] then ''unnamed'' else s)"







text \<open>
  A string matches a layout when it has the layout's length, a digit wherever the layout
  has one of the letters \<open>Y M D H S\<close>, and the layout's own character elsewhere. The
  footer of the progress file format is a blank line, 60 dashes, and the completion line.
\<close>

definition matches_layout :: "string \<Rightarrow> string \<Rightarrow> bool" where
  "matches_layout layout s =
     list_all2 (\<lambda>p c. if p \<in> set ''YMDHS'' then isDigit c else c = p) layout s"

definition footer_layout :: string where
  "footer_layout =
     [CHR 0x0A] @ replicate 60 (CHR ''-'') @ [CHR 0x0A] @
     ''Completed: YYYY-MM-DD HH:MM:SS'' @ [CHR 0x0A]"

text \<open>The calendar fields of a time whose year has at most four digits.\<close>

definition valid_tm :: "tm \<Rightarrow> bool" where
  "valid_tm t =
     (tm_year t < 10000 \<and> 1 \<le> tm_month t \<and> tm_month t \<le> 12 \<and> 1 \<le> tm_day t \<and>
      tm_day t \<le> 31 \<and> tm_hour t < 24 \<and> tm_minute t < 60 \<and> tm_second t < 60)"

text \<open>Concrete inputs for the evaluations below.\<close>

definition example_time :: tm where
  "example_time =
     \<lparr>tm_year = 2026, tm_month = 3, tm_day = 7, tm_hour = 9, tm_minute = 5, tm_second = 0\<rparr>"

definition example_file :: osfile where
  "example_file = \<lparr>fname = ''progress.txt'', content = [], flocked = True, fclosed = False\<rparr>"

definition example_Logger :: Logger where
  "example_Logger = \<lparr>l_file = Some example_file, startTime = example_time, phase = ''task''\<rparr>"

definition example_teaLogger :: teaLogger where
  "example_teaLogger =
     \<lparr>tl_file = Some example_file, tl_sender = [], tl_startTime = example_time,
      tl_phase = ''task''\<rparr>"

definition collector0 :: "teaCollector \<times> store" where
  "collector0 = NewCollector [] []"


section \<open>Progress-file names and slugs\<close>

declare progress_collapse.simps [simp del] tui_collapse.simps [simp del]

lemma tui_collapse_eq: "tui_collapse s = progress_collapse s"
proof (induction s rule: progress_collapse.induct)
  case (1 result)
  show ?case
  proof (cases "Contains result ''--''")
    case True
    with 1 show ?thesis
      by (subst tui_collapse.simps, subst progress_collapse.simps) simp
  next
    case False
    then show ?thesis
      by (subst tui_collapse.simps, subst progress_collapse.simps) simp
  qed
qed

lemma ReplaceAll_dd_Cons:
  "ReplaceAll (a # b # cs) ''--'' ''-'' =
     (if a = CHR ''-'' \<and> b = CHR ''-'' then CHR ''-'' # ReplaceAll cs ''--'' ''-''
      else a # ReplaceAll (b # cs) ''--'' ''-'')"
  by auto

lemma ReplaceAll_dd_single: "ReplaceAll [a] ''--'' ''-'' = [a]"
  by simp

lemma squeeze_ReplaceAll_aux:
  "squeeze (c # ReplaceAll s ''--'' ''-'') = squeeze (c # s)"
proof (induction s arbitrary: c rule: length_induct)
  case (1 s)
  show ?case
  proof (cases s)
    case Nil
    then show ?thesis by simp
  next
    case (Cons a t)
    note s = this
    show ?thesis
    proof (cases t)
      case Nil
      with s show ?thesis by simp
    next
      case (Cons b u)
      have IHu: "\<And>d. squeeze (d # ReplaceAll u ''--'' ''-'') = squeeze (d # u)"
        using 1 s Cons by simp
      have IHt: "\<And>d. squeeze (d # ReplaceAll t ''--'' ''-'') = squeeze (d # t)"
        using 1 s by simp
      show ?thesis
      proof (cases "a = CHR ''-'' \<and> b = CHR ''-''")
        case True
        then show ?thesis
          using IHu [of "CHR ''-''"] unfolding s Cons ReplaceAll_dd_Cons by simp
      next
        case False
        then show ?thesis
          using IHt [of a] unfolding s Cons ReplaceAll_dd_Cons by auto
      qed
    qed
  qed
qed

lemma squeeze_Cons_other: "c \<noteq> CHR ''-'' \<Longrightarrow> squeeze (c # xs) = c # squeeze xs"
  by (cases xs) auto

lemma squeeze_ReplaceAll: "squeeze (ReplaceAll s ''--'' ''-'') = squeeze s"
  using squeeze_ReplaceAll_aux [of "CHR ''x''" s]
  by (simp add: squeeze_Cons_other)

lemma squeeze_no_dd: "\<not> Contains s ''--'' \<Longrightarrow> squeeze s = s"
  by (induction s rule: squeeze.induct) auto

lemma progress_collapse_squeeze: "progress_collapse s = squeeze s"
proof (induction s rule: progress_collapse.induct)
  case (1 result)
  show ?case
  proof (cases "Contains result ''--''")
    case True
    with 1 show ?thesis
      by (subst progress_collapse.simps) (simp add: squeeze_ReplaceAll)
  next
    case False
    then show ?thesis
      by (subst progress_collapse.simps) (simp add: squeeze_no_dd)
  qed
qed

lemma ReplaceAll_space: "ReplaceAll s '' '' ''-'' = map (\<lambda>c. if c = CHR '' '' then CHR ''-'' else c) s"
  by (induction s) auto


lemma TrimRight_id: "s = [] \<or> last s \<notin> set cs \<Longrightarrow> TrimRight s cs = s"
proof (cases s rule: rev_cases)
  case Nil
  then show ?thesis by (simp add: TrimRight_def)
next
  case (snoc ys y)
  assume "s = [] \<or> last s \<notin> set cs"
  with snoc show ?thesis by (simp add: TrimRight_def)
qed

lemma last_TrimRight: "TrimRight s cs \<noteq> [] \<Longrightarrow> last (TrimRight s cs) \<notin> set cs"
  unfolding TrimRight_def
  using hd_dropWhile [of "\<lambda>c. c \<in> set cs" "rev s"]
  by (simp add: last_rev)

lemma last_TrimLeft: "TrimLeft s cs \<noteq> [] \<Longrightarrow> last (TrimLeft s cs) = last s"
proof -
  assume ne: "TrimLeft s cs \<noteq> []"
  have "suffix (TrimLeft s cs) s"
    unfolding TrimLeft_def by (rule suffix_dropWhile)
  then obtain zs where "s = zs @ TrimLeft s cs"
    by (auto simp: suffix_def)
  with ne show ?thesis
    by (metis last_appendR)
qed

lemma TrimRight_Trim: "TrimRight (Trim s cs) cs = Trim s cs"
proof (cases "Trim s cs = []")
  case True
  then show ?thesis by (simp add: TrimRight_id)
next
  case False
  then have "last (Trim s cs) = last (TrimRight s cs)"
    unfolding Trim_def by (rule last_TrimLeft)
  moreover have "TrimRight s cs \<noteq> []"
    using False unfolding Trim_def TrimLeft_def by auto
  ultimately have "last (Trim s cs) \<notin> set cs"
    using last_TrimRight by metis
  then show ?thesis by (simp add: TrimRight_id)
qed

lemma progress_sanitizePlanName_amended:
  "progress_sanitizePlanName u desc = amended_slug u desc"
proof -
  have cut: "(if length t > 50 then TrimRight (take 50 t) ''-'' else t) = TrimRight (take 50 t) ''-''"
    if "t = Trim r ''-''" for t r :: string
    using that TrimRight_Trim [of r "''-''"] by simp
  show ?thesis
    unfolding progress_sanitizePlanName_def amended_slug_def Let_def
      progress_collapse_squeeze ReplaceAll_space
    by (simp add: cut)
qed

lemma tui_sanitizePlanName_eq: "tui_sanitizePlanName u desc = progress_sanitizePlanName u desc"
  by (simp add: tui_sanitizePlanName_def progress_sanitizePlanName_def tui_collapse_eq)

text \<open>
  C1: \<open>progressFilename\<close> is \<open>progress-plan-<slug>.txt\<close> in plan mode with a description;
  with a plan file it is \<open>progress-<stem>.txt\<close>, \<open>progress-<stem>-review.txt\<close> or
  \<open>progress-<stem>-codex.txt\<close> in the modes full, review and codex-only, the stem being the
  base name of the plan file without \<open>.md\<close>; without a plan file it is \<open>progress.txt\<close>,
  \<open>progress-review.txt\<close>, \<open>progress-codex.txt\<close>, and \<open>progress-plan.txt\<close> in plan mode without
  a description. (A non-empty string is written \<open>d # ds\<close>.)
\<close>

theorem progressFilename_cases:
  "progress_progressFilename u planFile (d # ds) ''plan'' =
     ''progress-plan-'' @ progress_sanitizePlanName u (d # ds) @ ''.txt'' \<and>
   progress_progressFilename u (p # ps) desc ''full'' =
     ''progress-'' @ TrimSuffix (Base (p # ps)) ''.md'' @ ''.txt'' \<and>
   progress_progressFilename u (p # ps) desc ''review'' =
     ''progress-'' @ TrimSuffix (Base (p # ps)) ''.md'' @ ''-review.txt'' \<and>
   progress_progressFilename u (p # ps) desc ''codex-only'' =
     ''progress-'' @ TrimSuffix (Base (p # ps)) ''.md'' @ ''-codex.txt'' \<and>
   progress_progressFilename u [] desc ''full'' = ''progress.txt'' \<and>
   progress_progressFilename u [] desc ''review'' = ''progress-review.txt'' \<and>
   progress_progressFilename u [] desc ''codex-only'' = ''progress-codex.txt'' \<and>
   progress_progressFilename u [] [] ''plan'' = ''progress-plan.txt''"
  by (simp add: progress_progressFilename_def)

text \<open>
  C2, as stated, fails: the slug of \<open>a b\<close> is \<open>a-b\<close>, while lowercasing, stripping what is
  neither alphanumeric nor a dash, collapsing double dashes and cutting to 50 characters
  gives \<open>ab\<close>.
\<close>

theorem sanitizePlanName_counterexample:
  "progress_sanitizePlanName id ''a b'' = ''a-b'' \<and> spec_slug id ''a b'' = ''ab'' \<and>
   progress_sanitizePlanName id ''a b'' \<noteq> spec_slug id ''a b''"
  by code_simp

text \<open>
  C2, amended: in both packages the slug is the description lowercased, with spaces
  replaced by dashes, every character other than \<open>a-z\<close>, \<open>0-9\<close> and the dash stripped,
  runs of dashes collapsed to one dash, leading and trailing dashes trimmed, cut to 50
  bytes with trailing dashes trimmed again, and \<open>unnamed\<close> when that is empty.
\<close>

theorem sanitizePlanName_amended:
  "progress_sanitizePlanName u desc = amended_slug u desc \<and>
   tui_sanitizePlanName u desc = amended_slug u desc"
  by (simp add: tui_sanitizePlanName_eq progress_sanitizePlanName_amended)

text \<open>
  C10: the copies in \<open>pkg/tui\<close> compute the same strings as the functions of
  \<open>pkg/progress\<close>.
\<close>

theorem progressFilename_tui_eq_progress:
  "tui_progressFilename u planFile planDescription mode =
     progress_progressFilename u planFile planDescription mode \<and>
   tui_sanitizePlanName u planDescription = progress_sanitizePlanName u planDescription"
  by (simp add: tui_progressFilename_def progress_progressFilename_def tui_sanitizePlanName_eq)

section \<open>Branch names\<close>

lemma TrimLeft_dropWhile_date:
  "TrimLeft (dropWhile (\<lambda>c. isDigit c \<or> c = CHR ''-'') s) ''-'' =
     dropWhile (\<lambda>c. isDigit c \<or> c = CHR ''-'') s"
proof (cases "dropWhile (\<lambda>c. isDigit c \<or> c = CHR ''-'') s")
  case Nil
  show ?thesis unfolding Nil TrimLeft_def by simp
next
  case (Cons x xs)
  then have "\<not> (isDigit x \<or> x = CHR ''-'')"
    using hd_dropWhile [of "\<lambda>c. isDigit c \<or> c = CHR ''-''" s] by simp
  with Cons show ?thesis by (simp add: TrimLeft_def)
qed

lemma datePrefixRe_remove_dropWhile:
  "datePrefixRe_remove s = dropWhile (\<lambda>c. isDigit c \<or> c = CHR ''-'') s"
  by (simp add: datePrefixRe_remove_def datePrefixRe_match_def Let_def dropWhile_eq_drop)

text \<open>
  C3: the branch name is the base name of the plan path without \<open>.md\<close> (the stem), with
  the leading run of digits and dashes removed and leading dashes trimmed; if nothing is
  left, it is the stem. Equivalently: the stem itself if it consists of digits and dashes
  only, and otherwise the stem from its first other character on.
\<close>

theorem extractBranchName_spec:
  "extractBranchName planFile =
     (let stem = TrimSuffix (Base planFile) ''.md'';
          rest = TrimLeft (dropWhile (\<lambda>c. isDigit c \<or> c = CHR ''-'') stem) ''-''
      in if rest = [] then stem else rest) \<and>
   extractBranchName planFile =
     (let stem = TrimSuffix (Base planFile) ''.md''
      in if list_all (\<lambda>c. isDigit c \<or> c = CHR ''-'') stem then stem
         else dropWhile (\<lambda>c. isDigit c \<or> c = CHR ''-'') stem)"
proof -
  have "(dropWhile (\<lambda>c. isDigit c \<or> c = CHR ''-'') s = []) =
          list_all (\<lambda>c. isDigit c \<or> c = CHR ''-'') s" for s
    by (simp add: dropWhile_eq_Nil_conv list_all_iff)
  then show ?thesis
    by (simp add: extractBranchName_def datePrefixRe_remove_dropWhile TrimLeft_dropWhile_date
        Let_def)
qed

lemma extractBranchName_examples:
  "extractBranchName ''docs/plans/2024-01-15-add-tests.md'' = ''add-tests''"
  "extractBranchName ''2024-01-15.md'' = ''2024-01-15''"
  by code_simp+

section \<open>The initial TUI state\<close>




section \<open>The safe sender\<close>

lemma SafeSender_call_stopped: "stopped s \<Longrightarrow> SafeSender_call s c = s"
  by (cases c) (simp_all add: SafeSender_Send_def SafeSender_Stop_def)

lemma SafeSender_calls_stopped: "stopped s \<Longrightarrow> foldl SafeSender_call s cs = s"
  by (induction cs) (simp_all add: SafeSender_call_stopped)

text \<open>
  C7: a second \<open>Stop\<close>, and any number of further ones, changes nothing; a \<open>Send\<close> after
  \<open>Stop\<close> changes nothing, so nothing reaches the wrapped sender; and so for any sequence
  of calls after a \<open>Stop\<close>.
\<close>

theorem SafeSender_Stop_idempotent:
  "SafeSender_Stop (SafeSender_Stop s) = SafeSender_Stop s \<and>
   (SafeSender_Stop ^^ Suc n) s = SafeSender_Stop s \<and>
   SafeSender_Send (SafeSender_Stop s) msg = SafeSender_Stop s \<and>
   foldl SafeSender_call (SafeSender_Stop s) calls = SafeSender_Stop s"
proof -
  have st: "stopped (SafeSender_Stop s)"
    by (simp add: SafeSender_Stop_def)
  have twice: "SafeSender_Stop (SafeSender_Stop t) = SafeSender_Stop t" for t :: "'a SafeSender"
    by (simp add: SafeSender_Stop_def)
  have "(SafeSender_Stop ^^ Suc n) s = SafeSender_Stop s"
    by (induction n) (simp_all add: twice)
  moreover have "SafeSender_Send (SafeSender_Stop s) msg = SafeSender_Stop s"
    using st by (simp add: SafeSender_Send_def)
  moreover have "foldl SafeSender_call (SafeSender_Stop s) calls = SafeSender_Stop s"
    using st by (rule SafeSender_calls_stopped)
  ultimately show ?thesis
    using twice by blast
qed

section \<open>The output buffer\<close>

lemma appendOutput_output:
  "m_output (appendOutput m line) =
     drop (length (m_output m @ [line]) - maxOutputLines) (m_output m @ [line])"
  by (simp add: appendOutput_def Let_def)

lemma drop_window:
  "drop (length (drop (length xs - n) xs @ ls) - n) (drop (length xs - n) xs @ ls) =
     drop (length (xs @ ls) - n) (xs @ ls)"
proof (cases "length xs \<le> n")
  case True
  then show ?thesis by simp
next
  case False
  then have "length (xs @ ls) - n = length ls + (length xs - n)"
    by simp
  then have "drop (length (xs @ ls) - n) (xs @ ls) = drop (length ls) (drop (length xs - n) (xs @ ls))"
    by (simp only: drop_drop)
  also have "\<dots> = drop (length ls) (drop (length xs - n) xs @ ls)"
    by simp
  finally show ?thesis
    using False by simp
qed

lemma foldl_appendOutput_output:
  "ls \<noteq> [] \<Longrightarrow>
     m_output (foldl appendOutput m ls) =
       drop (length (m_output m @ ls) - maxOutputLines) (m_output m @ ls)"
proof (induction ls rule: rev_induct)
  case Nil
  then show ?case by simp
next
  case (snoc x ls)
  show ?case
  proof (cases "ls = []")
    case True
    then show ?thesis
      by (simp add: appendOutput_output)
  next
    case False
    with snoc.IH have IH: "m_output (foldl appendOutput m ls) =
        drop (length (m_output m @ ls) - maxOutputLines) (m_output m @ ls)"
      by simp
    have "m_output (foldl appendOutput m (ls @ [x])) =
        drop (length (m_output (foldl appendOutput m ls) @ [x]) - maxOutputLines)
             (m_output (foldl appendOutput m ls) @ [x])"
      by (simp add: appendOutput_output)
    also have "\<dots> = drop (length ((m_output m @ ls) @ [x]) - maxOutputLines) ((m_output m @ ls) @ [x])"
      unfolding IH by (rule drop_window)
    finally show ?thesis
      by simp
  qed
qed

text \<open>
  C6: starting from the empty buffer of a new model, after any sequence of appends the
  buffer is the sequence without its first \<open>length - 10000\<close> lines, that is its last (up
  to) 10 000 lines in their order; it never holds more than 10 000 lines; and after
  10 001 appends it is the sequence without its first line.
\<close>

theorem appendOutput_bounded:
  "m_output (foldl appendOutput (NewModel s0) ls) = drop (length ls - 10000) ls \<and>
   length (m_output (foldl appendOutput (NewModel s0) ls)) = min (length ls) 10000 \<and>
   (length ls = 10001 \<longrightarrow> m_output (foldl appendOutput (NewModel s0) ls) = tl ls)"
proof -
  have eq: "m_output (foldl appendOutput (NewModel s0) ls) = drop (length ls - 10000) ls"
  proof (cases "ls = []")
    case True
    then show ?thesis by (simp add: NewModel_def)
  next
    case False
    then show ?thesis
      using foldl_appendOutput_output [of ls "NewModel s0"]
      by (simp add: NewModel_def maxOutputLines_def)
  qed
  have "length ls = 10001 \<longrightarrow> drop (length ls - 10000) ls = tl ls"
    by (simp add: drop_Suc)
  with eq show ?thesis
    by (simp add: min_def)
qed

theorem appendOutput_bounded_witness:
  "length (map decimal [0..<10001]) = 10001 \<and>
   m_output (foldl appendOutput (NewModel StateExecuting) (map decimal [0..<10001])) =
     tl (map decimal [0..<10001])"
proof -
  have len: "length (map decimal [0..<10001]) = 10001"
    by simp
  from appendOutput_bounded [of StateExecuting "map decimal [0..<10001]"] len
  show ?thesis
    by blast
qed

section \<open>The input collector\<close>

lemma AskQuestion_select_closed:
  "answerCh c < length st \<Longrightarrow> closed (st ! answerCh c) \<Longrightarrow> buf (st ! answerCh c) = []
     \<Longrightarrow> AskQuestion_select None pick c st = Some (([], Some ''question canceled''), st)"
  by (simp add: AskQuestion_select_def chan_recv_def)

lemma AskQuestion_begin_drained:
  assumes "options \<noteq> []" "answerCh c < length st" "length (buf (st ! answerCh c)) \<le> 1"
  shows "\<exists>st1. AskQuestion_begin c st q options =
            Inr (c\<lparr>tc_sender := tc_sender c @ [QuestionMsg q options (answerCh c)]\<rparr>, st1) \<and>
          length st1 = length st \<and> buf (st1 ! answerCh c) = [] \<and>
          closed (st1 ! answerCh c) = closed (st ! answerCh c)"
proof (cases "buf (st ! answerCh c)")
  case Nil
  with assms show ?thesis
    by (auto simp: AskQuestion_begin_def chan_recv_def Let_def)
next
  case (Cons v vs)
  with assms(3) have "vs = []" by simp
  with Cons assms show ?thesis
    by (auto simp: AskQuestion_begin_def chan_recv_def Let_def)
qed

lemma AskQuestion_channel_closed_ex:
  assumes "options \<noteq> []"
    and "answerCh c < length st"
    and "\<not> closed (st ! answerCh c)"
    and "length (buf (st ! answerCh c)) \<le> 1"
  shows "\<exists>c1 st1 m2 st2.
           AskQuestion_begin c st q options = Inr (c1, st1) \<and>
           AskQuestion_select None pick c1 st1 = None \<and>
           updateQuestion (handleQuestion m q options (answerCh c)) ''ctrl+c'' st1 =
             Ok (m2, st2, Some Quit) \<and>
           AskQuestion_select None pick c1 st2 = Some (([], Some ''question canceled''), st2)"
proof -
  from AskQuestion_begin_drained [OF assms(1,2,4), of q]
  obtain st1 where b: "AskQuestion_begin c st q options =
        Inr (c\<lparr>tc_sender := tc_sender c @ [QuestionMsg q options (answerCh c)]\<rparr>, st1)"
    and len: "length st1 = length st" and empty: "buf (st1 ! answerCh c) = []"
    and cl: "closed (st1 ! answerCh c) = closed (st ! answerCh c)"
    by blast
  let ?c1 = "c\<lparr>tc_sender := tc_sender c @ [QuestionMsg q options (answerCh c)]\<rparr>"
  let ?st2 = "st1[answerCh c := (st1 ! answerCh c)\<lparr>closed := True\<rparr>]"
  have blocked: "AskQuestion_select None pick ?c1 st1 = None"
    using assms(2,3) len empty cl by (simp add: AskQuestion_select_def chan_recv_def)
  have ui: "updateQuestion (handleQuestion m q options (answerCh c)) ''ctrl+c'' st1 =
      Ok ((handleQuestion m q options (answerCh c))\<lparr>questionCh := None\<rparr>, ?st2, Some Quit)"
    using assms(2,3) len cl
    by (simp add: updateQuestion_def handleQuestion_def chan_close_def Let_def)
  have woken: "AskQuestion_select None pick ?c1 ?st2 = Some (([], Some ''question canceled''), ?st2)"
    using assms(2) len empty by (intro AskQuestion_select_closed) simp_all
  from b blocked ui woken show ?thesis
    by blast
qed

text \<open>
  C8: a call of \<open>AskQuestion\<close> with options, on an open answer channel, with the context
  not cancelled, reaches its \<open>select\<close> and blocks there; when the UI, showing the question,
  handles \<open>ctrl+c\<close> it closes the channel and quits, and the \<open>select\<close> then returns the empty
  answer with the error \<open>question canceled\<close>.
\<close>

theorem AskQuestion_channel_closed:
  assumes "options \<noteq> []"
    and "answerCh c < length st"
    and "\<not> closed (st ! answerCh c)"
    and "length (buf (st ! answerCh c)) \<le> 1"
  shows "case AskQuestion_begin c st q options of
           Inl r \<Rightarrow> False
         | Inr (c1, st1) \<Rightarrow>
             AskQuestion_select None pick c1 st1 = None \<and>
             (case updateQuestion (handleQuestion m q options (answerCh c)) ''ctrl+c'' st1 of
                Ok (m2, st2, cmd) \<Rightarrow>
                  cmd = Some Quit \<and>
                  AskQuestion_select None pick c1 st2 =
                    Some (([], Some ''question canceled''), st2)
              | Blocks \<Rightarrow> False
              | Panics \<Rightarrow> False)"
proof -
  from AskQuestion_channel_closed_ex [OF assms, where q = q and pick = pick and m = m]
  obtain c1 st1 m2 st2 where "AskQuestion_begin c st q options = Inr (c1, st1)"
    and "AskQuestion_select None pick c1 st1 = None"
    and "updateQuestion (handleQuestion m q options (answerCh c)) ''ctrl+c'' st1 =
           Ok (m2, st2, Some Quit)"
    and "AskQuestion_select None pick c1 st2 = Some (([], Some ''question canceled''), st2)"
    by blast
  then show ?thesis
    by simp
qed

theorem AskQuestion_channel_closed_witness:
  "[''A'', ''B''] \<noteq> [] \<and>
   answerCh (fst collector0) < length (snd collector0) \<and>
   \<not> closed (snd collector0 ! answerCh (fst collector0)) \<and>
   length (buf (snd collector0 ! answerCh (fst collector0))) \<le> 1 \<and>
   (case AskQuestion_begin (fst collector0) (snd collector0) ''pick one'' [''A'', ''B''] of
      Inl r \<Rightarrow> False
    | Inr (c1, st1) \<Rightarrow>
        AskQuestion_select None False c1 st1 = None \<and>
        (case updateQuestion
                (handleQuestion (NewModel StateExecuting) ''pick one'' [''A'', ''B'']
                   (answerCh (fst collector0))) ''ctrl+c'' st1 of
           Ok (m2, st2, cmd) \<Rightarrow>
             cmd = Some Quit \<and>
             AskQuestion_select None False c1 st2 =
               Some (([], Some ''question canceled''), st2)
         | Blocks \<Rightarrow> False
         | Panics \<Rightarrow> False))"
proof -
  have h1: "[''A'', ''B''] \<noteq> []"
    by simp
  have h2: "answerCh (fst collector0) < length (snd collector0)"
    by (simp add: collector0_def NewCollector_def make_chan_def)
  have h3: "\<not> closed (snd collector0 ! answerCh (fst collector0))"
    by (simp add: collector0_def NewCollector_def make_chan_def)
  have h4: "length (buf (snd collector0 ! answerCh (fst collector0))) \<le> 1"
    by (simp add: collector0_def NewCollector_def make_chan_def)
  from AskQuestion_channel_closed [OF h1 h2 h3 h4,
      where q = "''pick one''" and pick = False and m = "NewModel StateExecuting"]
    h1 h2 h3 h4
  show ?thesis
    by blast
qed

section \<open>PrintAligned\<close>



























section \<open>The footer written by Close\<close>

declare decimal.simps [simp del]

lemma isDigit_digit: "n < 10 \<Longrightarrow> isDigit (digit n)"
  by (simp add: isDigit_def digit_def less_eq_char_def)

lemma decimal_digits: "list_all isDigit (decimal n)"
proof (induction n rule: decimal.induct)
  case (1 n)
  show ?case
  proof (cases "n < 10")
    case True
    then show ?thesis
      by (subst decimal.simps) (simp add: isDigit_digit)
  next
    case False
    with 1 show ?thesis
      by (subst decimal.simps) (simp add: isDigit_digit)
  qed
qed

lemma decimal_length: "n < 10 ^ k \<Longrightarrow> 0 < k \<Longrightarrow> length (decimal n) \<le> k"
proof (induction k arbitrary: n)
  case 0
  then show ?case by simp
next
  case (Suc k)
  show ?case
  proof (cases "n < 10")
    case True
    then show ?thesis
      by (subst decimal.simps) simp
  next
    case False
    with Suc.prems have k: "0 < k"
      by (cases k) auto
    from Suc.prems have "n div 10 < 10 ^ k"
      by (simp add: less_mult_imp_div_less mult.commute)
    with Suc.IH k have "length (decimal (n div 10)) \<le> k"
      by simp
    with False show ?thesis
      by (subst decimal.simps) simp
  qed
qed

lemma appendInt_digits: "list_all isDigit (appendInt x w)"
proof -
  have "isDigit (CHR ''0'')"
    by (simp add: isDigit_def)
  then have "list_all isDigit (replicate (w - length (decimal x)) (CHR ''0''))"
    by (simp add: list_all_iff)
  then show ?thesis
    by (simp add: appendInt_def Let_def decimal_digits)
qed

lemma appendInt_length: "x < 10 ^ w \<Longrightarrow> 0 < w \<Longrightarrow> length (appendInt x w) = w"
  using decimal_length [of x w] by (simp add: appendInt_def Let_def)

lemma matches_digits:
  "list_all (\<lambda>p. p \<in> set ''YMDHS'') pat \<Longrightarrow> length s = length pat \<Longrightarrow> list_all isDigit s
     \<Longrightarrow> matches_layout pat s"
  by (auto simp: matches_layout_def list_all2_conv_all_nth list_all_length)

lemma matches_append:
  "matches_layout a b \<Longrightarrow> matches_layout c d \<Longrightarrow> matches_layout (a @ c) (b @ d)"
  by (simp add: matches_layout_def list_all2_appendI)

lemma matches_appendInt:
  "list_all (\<lambda>p. p \<in> set ''YMDHS'') pat \<Longrightarrow> length pat = w \<Longrightarrow> x < 10 ^ w \<Longrightarrow> 0 < w
     \<Longrightarrow> matches_layout pat (appendInt x w)"
  by (rule matches_digits) (simp_all add: appendInt_length appendInt_digits)

lemma Format_datetime_layout:
  assumes "valid_tm t"
  shows "matches_layout ''YYYY-MM-DD HH:MM:SS'' (Format_datetime t)"
proof -
  have y: "matches_layout ''YYYY'' (appendInt (tm_year t) 4)"
    using assms matches_appendInt [of "''YYYY''" 4 "tm_year t"] by (simp add: valid_tm_def)
  have mo: "matches_layout ''MM'' (appendInt (tm_month t) 2)"
    using assms matches_appendInt [of "''MM''" 2 "tm_month t"] by (simp add: valid_tm_def)
  have d: "matches_layout ''DD'' (appendInt (tm_day t) 2)"
    using assms matches_appendInt [of "''DD''" 2 "tm_day t"] by (simp add: valid_tm_def)
  have h: "matches_layout ''HH'' (appendInt (tm_hour t) 2)"
    using assms matches_appendInt [of "''HH''" 2 "tm_hour t"] by (simp add: valid_tm_def)
  have mi: "matches_layout ''MM'' (appendInt (tm_minute t) 2)"
    using assms matches_appendInt [of "''MM''" 2 "tm_minute t"] by (simp add: valid_tm_def)
  have s: "matches_layout ''SS'' (appendInt (tm_second t) 2)"
    using assms matches_appendInt [of "''SS''" 2 "tm_second t"] by (simp add: valid_tm_def)
  have dash: "matches_layout ''-'' ''-''" and sp: "matches_layout '' '' '' ''"
    and col: "matches_layout '':'' '':''"
    by (simp_all add: matches_layout_def)
  have "matches_layout (''YYYY'' @ ''-'' @ ''MM'' @ ''-'' @ ''DD'' @ '' '' @ ''HH'' @ '':'' @
          ''MM'' @ '':'' @ ''SS'') (Format_datetime t)"
    unfolding Format_datetime_def
    by (intro matches_append y mo d h mi s dash sp col)
  then show ?thesis by simp
qed

lemma matches_literal: "list_all (\<lambda>p. p \<notin> set ''YMDHS'') pat \<Longrightarrow> matches_layout pat pat"
  by (induction pat) (auto simp: matches_layout_def)

lemma footer_matches:
  assumes "valid_tm t"
  shows "matches_layout footer_layout
           ([CHR 0x0A] @ replicate 60 (CHR ''-'') @ [CHR 0x0A] @
            ''Completed: '' @ Format_datetime t @ [CHR 0x0A])"
proof -
  have a: "matches_layout ([CHR 0x0A] @ replicate 60 (CHR ''-'') @ [CHR 0x0A] @ ''Completed: '')
             ([CHR 0x0A] @ replicate 60 (CHR ''-'') @ [CHR 0x0A] @ ''Completed: '')"
    by (rule matches_literal) (simp add: list_all_iff)
  have b: "matches_layout [CHR 0x0A] [CHR 0x0A]"
    by (simp add: matches_layout_def)
  have "matches_layout
          (([CHR 0x0A] @ replicate 60 (CHR ''-'') @ [CHR 0x0A] @ ''Completed: '') @
           ''YYYY-MM-DD HH:MM:SS'' @ [CHR 0x0A])
          (([CHR 0x0A] @ replicate 60 (CHR ''-'') @ [CHR 0x0A] @ ''Completed: '') @
           Format_datetime t @ [CHR 0x0A])"
    by (intro matches_append a b Format_datetime_layout assms)
  then show ?thesis
    by (simp add: footer_layout_def)
qed

lemma matches_layout_length: "matches_layout pat s \<Longrightarrow> length s = length pat"
  by (simp add: matches_layout_def list_all2_lengthD)

lemma tui_Close_open:
  assumes "tl_file t = Some f" "\<not> fclosed f"
  shows "tui_Close t now canonicalPath activeLocks oserr =
           (t\<lparr>tl_file := Some (f\<lparr>content := content f @ [CHR 0x0A] @ replicate 60 (CHR ''-'') @
                                  [CHR 0x0A] @ ''Completed: '' @ Format_datetime now @ [CHR 0x0A],
                                flocked := False, fclosed := True\<rparr>)\<rparr>,
            activeLocks - {canonicalPath (fname f)},
            map_option (\<lambda>e. ''close progress file: '' @ e) oserr)"
  using assms
  by (cases oserr)
     (simp_all add: tui_Close_def tui_writeFile_def Fprintf_def UnlockFile_def
        UnregisterActiveLock_def file_Close_def Let_def)

lemma progress_Close_open:
  assumes "l_file l = Some f" "\<not> fclosed f"
  shows "progress_Close l now elapsed canonicalPath activeLocks oserr =
           (l\<lparr>l_file := Some (f\<lparr>content := content f @ [CHR 0x0A] @ replicate 60 (CHR ''-'') @
                                  [CHR 0x0A] @ ''Completed: '' @ Format_datetime now @
                                  '' ('' @ elapsed @ '')'' @ [CHR 0x0A],
                                flocked := False, fclosed := True\<rparr>)\<rparr>,
            activeLocks - {canonicalPath (fname f)},
            map_option (\<lambda>e. ''close progress file: '' @ e) oserr)"
  using assms
  by (cases oserr)
     (simp_all add: progress_Close_def progress_writeFile_def Fprintf_def UnlockFile_def
        UnregisterActiveLock_def file_Close_def Let_def)

text \<open>
  C5, amended: on an open progress file and a time whose year has four digits,
  \<open>teaLogger.Close\<close> appends a blank line, 60 dashes and the line
  \<open>Completed: YYYY-MM-DD HH:MM:SS\<close>, then releases the lock, removes the file from the
  registry of active locks and closes the file; \<open>Logger.Close\<close> of \<open>pkg/progress\<close> does the
  same with the completion line \<open>Completed: YYYY-MM-DD HH:MM:SS (<elapsed>)\<close>.
\<close>

theorem Close_footer:
  assumes "\<not> fclosed f" and "valid_tm now" and "tl_file t = Some f" and "l_file l = Some f"
  shows "tui_Close t now canonicalPath activeLocks oserr =
           (t\<lparr>tl_file := Some (f\<lparr>content := content f @ [CHR 0x0A] @ replicate 60 (CHR ''-'') @
                                  [CHR 0x0A] @ ''Completed: '' @ Format_datetime now @ [CHR 0x0A],
                                flocked := False, fclosed := True\<rparr>)\<rparr>,
            activeLocks - {canonicalPath (fname f)},
            map_option (\<lambda>e. ''close progress file: '' @ e) oserr) \<and>
         matches_layout footer_layout
           ([CHR 0x0A] @ replicate 60 (CHR ''-'') @ [CHR 0x0A] @
            ''Completed: '' @ Format_datetime now @ [CHR 0x0A]) \<and>
         progress_Close l now elapsed canonicalPath activeLocks oserr =
           (l\<lparr>l_file := Some (f\<lparr>content := content f @ [CHR 0x0A] @ replicate 60 (CHR ''-'') @
                                  [CHR 0x0A] @ ''Completed: '' @ Format_datetime now @
                                  '' ('' @ elapsed @ '')'' @ [CHR 0x0A],
                                flocked := False, fclosed := True\<rparr>)\<rparr>,
            activeLocks - {canonicalPath (fname f)},
            map_option (\<lambda>e. ''close progress file: '' @ e) oserr) \<and>
         matches_layout ''YYYY-MM-DD HH:MM:SS'' (Format_datetime now)"
  using tui_Close_open [OF assms(3) assms(1), of now canonicalPath activeLocks oserr]
    progress_Close_open [OF assms(4) assms(1), of now elapsed canonicalPath activeLocks oserr]
    footer_matches [OF assms(2)] Format_datetime_layout [OF assms(2)]
  by blast

theorem Close_footer_witness:
  "\<not> fclosed example_file \<and> valid_tm example_time \<and>
   tl_file example_teaLogger = Some example_file \<and> l_file example_Logger = Some example_file \<and>
   tui_Close example_teaLogger example_time id {''progress.txt''} None =
     (example_teaLogger
        \<lparr>tl_file := Some (example_file
           \<lparr>content := content example_file @ [CHR 0x0A] @ replicate 60 (CHR ''-'') @
                        [CHR 0x0A] @ ''Completed: '' @ Format_datetime example_time @ [CHR 0x0A],
             flocked := False, fclosed := True\<rparr>)\<rparr>,
      {''progress.txt''} - {id (fname example_file)},
      map_option (\<lambda>e. ''close progress file: '' @ e) None) \<and>
   matches_layout footer_layout
     ([CHR 0x0A] @ replicate 60 (CHR ''-'') @ [CHR 0x0A] @
      ''Completed: '' @ Format_datetime example_time @ [CHR 0x0A]) \<and>
   Format_datetime example_time = ''2026-03-07 09:05:00''"
proof -
  have h1: "\<not> fclosed example_file"
    by (simp add: example_file_def)
  have h2: "valid_tm example_time"
    by (simp add: valid_tm_def example_time_def)
  have h3: "tl_file example_teaLogger = Some example_file"
    by (simp add: example_teaLogger_def)
  have h4: "l_file example_Logger = Some example_file"
    by (simp add: example_Logger_def)
  have fmt: "Format_datetime example_time = ''2026-03-07 09:05:00''"
    by code_simp
  from Close_footer [OF h1 h2 h3 h4, where canonicalPath = id and activeLocks = "{''progress.txt''}"
      and oserr = None and elapsed = "''now''"] h1 h2 h3 h4 fmt
  show ?thesis
    by blast
qed

text \<open>
  C5, as stated, fails for the logger of \<open>pkg/progress\<close>: its completion line carries the
  elapsed time in parentheses after the timestamp.
\<close>

theorem Close_footer_counterexample:
  "case progress_Close example_Logger example_time ''now'' id {} None of
     (l, locks, err) \<Rightarrow>
       map_option content (l_file l) =
         Some ([CHR 0x0A] @ replicate 60 (CHR ''-'') @ [CHR 0x0A] @
               ''Completed: 2026-03-07 09:05:00 (now)'' @ [CHR 0x0A]) \<and>
       \<not> matches_layout footer_layout
           ([CHR 0x0A] @ replicate 60 (CHR ''-'') @ [CHR 0x0A] @
            ''Completed: 2026-03-07 09:05:00 (now)'' @ [CHR 0x0A])"
  by code_simp

end
